theory Spec2Isabelle
  imports Complex_Main
begin

section \<open>The retrieval store (table RetrievalDatabase)\<close>

text \<open>
  \<^verbatim>\<open>create_database\<close> creates one table with the columns
  \<^verbatim>\<open>id, ByteSequence, VideoID, FeatureID, PositionID\<close>. A table is the list of its rows in
  insertion order; the autoincremented \<^verbatim>\<open>id\<close> of a row is its position in that list and is
  not stored again. A column value that SQL may find to be \<^verbatim>\<open>NULL\<close> is an \<open>option\<close>: the
  query of \<^verbatim>\<open>check_database_integrity\<close> tests \<^verbatim>\<open>ByteSequence IS NULL\<close>, so that column is
  modelled as nullable although the program itself only ever inserts text.
\<close>

record row =
  ByteSequence :: "string option"
  VideoID :: int
  FeatureID :: string
  PositionID :: int

type_synonym table = "row list"

text \<open>SQL comparisons are three-valued: a comparison with \<^verbatim>\<open>NULL\<close> is unknown (\<open>None\<close>).\<close>

definition sql_eq :: "string option \<Rightarrow> string option \<Rightarrow> bool option" where
  "sql_eq a b =
     (case a of None \<Rightarrow> None
      | Some x \<Rightarrow> (case b of None \<Rightarrow> None | Some y \<Rightarrow> Some (x = y)))"

definition sql_is_null :: "string option \<Rightarrow> bool option" where
  "sql_is_null a = Some (a = None)"

definition sql_or :: "bool option \<Rightarrow> bool option \<Rightarrow> bool option" where
  "sql_or p q =
     (if p = Some True \<or> q = Some True then Some True
      else if p = Some False \<and> q = Some False then Some False
      else None)"

text \<open>\<^verbatim>\<open>SELECT COUNT(*) FROM RetrievalDatabase WHERE w\<close>: the rows on which \<open>w\<close> is true.\<close>

definition select_count_where :: "(row \<Rightarrow> bool option) \<Rightarrow> table \<Rightarrow> nat" where
  "select_count_where w t = length (filter (\<lambda>r. w r = Some True) t)"

text \<open>
  \<^verbatim>\<open>create_database(db_path)\<close>: a missing database file (\<open>None\<close>) gets an empty table, an
  existing one is left as it is.
\<close>

definition create_database :: "table option \<Rightarrow> table" where
  "create_database f = (case f of None \<Rightarrow> [] | Some t \<Rightarrow> t)"

definition insert_unique_into_database ::
  "table \<Rightarrow> string \<Rightarrow> int \<Rightarrow> string \<Rightarrow> int \<Rightarrow> table" where
  "insert_unique_into_database t byte_sequence video_id feature_id position_id =
     (if select_count_where (\<lambda>r. sql_eq (ByteSequence r) (Some byte_sequence)) t = 0
      then t @ [\<lparr>ByteSequence = Some byte_sequence, VideoID = video_id,
                 FeatureID = feature_id, PositionID = position_id\<rparr>]
      else t)"

definition check_database_integrity :: "table \<Rightarrow> bool" where
  "check_database_integrity t =
     (let null_count =
        select_count_where
          (\<lambda>r. sql_or (sql_is_null (ByteSequence r)) (sql_eq (ByteSequence r) (Some ''''))) t
      in null_count = 0)"

text \<open>
  \<^verbatim>\<open>update_retrieval_database\<close> joins the elements of \<^verbatim>\<open>hash_sequence\<close> (every caller passes a
  one-element list) and inserts the result.
\<close>

definition update_retrieval_database ::
  "table \<Rightarrow> int \<Rightarrow> string \<Rightarrow> int \<Rightarrow> string list \<Rightarrow> table" where
  "update_retrieval_database t video_id feature_id position_id hash_sequence =
     (let byte_sequence = concat hash_sequence
      in insert_unique_into_database t byte_sequence video_id feature_id position_id)"

text \<open>
  \<^verbatim>\<open>SELECT COUNT(DISTINCT ByteSequence)\<close> counts the distinct values that are not \<^verbatim>\<open>NULL\<close>.
\<close>

definition unique_count :: "table \<Rightarrow> nat" where
  "unique_count t = length (remdups (List.map_filter ByteSequence t))"

definition check_all_hash_sequences_generated :: "table \<Rightarrow> bool" where
  "check_all_hash_sequences_generated t = (unique_count t = 256)"

text \<open>
  A sequence of \<^verbatim>\<open>insert_unique_into_database\<close> calls, each given by its four arguments,
  applied from left to right.
\<close>

type_synonym insert_call = "string \<times> int \<times> string \<times> int"

fun insert_calls :: "table \<Rightarrow> insert_call list \<Rightarrow> table" where
  "insert_calls t [] = t"
| "insert_calls t ((b, v, f, p) # cs) = insert_calls (insert_unique_into_database t b v f p) cs"

definition row_of_call :: "insert_call \<Rightarrow> row" where
  "row_of_call c =
     (case c of (b, v, f, p) \<Rightarrow>
        \<lparr>ByteSequence = Some b, VideoID = v, FeatureID = f, PositionID = p\<rparr>)"

section \<open>The checkpoint file\<close>

text \<open>
  The record that \<^verbatim>\<open>save_progress\<close> dumps into \<^verbatim>\<open>progress.json\<close>. The indices are Python
  integers. The file is absent (\<open>None\<close>) or holds one record.
\<close>

record progress =
  video_index :: int
  frame_index :: int
  feature_stage :: string

definition save_progress :: "progress \<Rightarrow> progress option \<Rightarrow> progress option" where
  "save_progress p f = Some p"

definition load_progress :: "progress option \<Rightarrow> progress option" where
  "load_progress f = f"

definition reset_progress :: "progress option \<Rightarrow> progress option" where
  "reset_progress f = None"

section \<open>The corpus and the feature extractors\<close>

text \<open>
  Decoding and hashing are done by OpenCV, librosa, PyWavelets and NumPy. A video is
  represented by what those calls return for it: \<open>frames_sift\<close> has one entry per frame that
  \<^verbatim>\<open>extract_frames\<close> yields, the value of \<^verbatim>\<open>calculate_sift_descriptors\<close> on that frame;
  \<open>audio_ste\<close> and \<open>audio_dwt\<close> are the lists \<^verbatim>\<open>calculate_ste_hash(audio)\<close> and
  \<^verbatim>\<open>calculate_dwt_hash(audio)\<close>. \<open>video_name\<close> is the file name without its \<^verbatim>\<open>.mp4\<close>
  extension. The corpus is the list of videos in the order of \<^verbatim>\<open>os.listdir\<close>. How
  the extractors write a hash value is modelled in the next section.
\<close>

record video =
  video_name :: string
  frames_sift :: "string list"
  audio_ste :: "string list"
  audio_dwt :: "string list"

definition video_path_of :: "string \<Rightarrow> video \<Rightarrow> string" where
  "video_path_of videos_dir v = videos_dir @ ''/'' @ video_name v @ ''.mp4''"

definition frame_dir_of :: "video \<Rightarrow> string" where
  "frame_dir_of v = ''Processed/frames_'' @ video_name v"

definition audio_path_of :: "string \<Rightarrow> video \<Rightarrow> string" where
  "audio_path_of videos_dir v = videos_dir @ ''/'' @ video_name v @ ''.wav''"

text \<open>Python's \<^verbatim>\<open>xs[k:]\<close>: a negative \<open>k\<close> counts from the end, and both ends are clamped.\<close>

definition slice_from :: "int \<Rightarrow> 'a list \<Rightarrow> 'a list" where
  "slice_from k xs =
     (if k < 0 then drop (nat (int (length xs) + k)) xs else drop (nat k) xs)"

section \<open>The hash format\<close>

text \<open>
  Every hash value is written as \<^verbatim>\<open>format(int(x % 256), '08b')\<close>: in
  \<^verbatim>\<open>calculate_sift_descriptors\<close> for the sum of the descriptors, in \<^verbatim>\<open>calculate_ste_hash\<close> and
  \<^verbatim>\<open>calculate_dwt_hash\<close> for every energy and every coefficient. The remainder \<^verbatim>\<open>x % 256\<close> is
  computed by NumPy on floating-point numbers and is taken as given: \<open>hash_of_remainders\<close>
  receives the list of these remainders, each a real number, and models the rest of the
  comprehension. \<open>py_int\<close> is Python's \<^verbatim>\<open>int\<close> on a finite float (truncation towards
  zero); \<open>format_08b\<close> is \<^verbatim>\<open>format(n, '08b')\<close>: the binary digits of \<open>n\<close>, filled with zeros
  on the left to 8 characters, the sign counted, and longer when \<open>n\<close> needs more digits.
\<close>

definition py_int :: "real \<Rightarrow> int" where
  "py_int r = (if 0 \<le> r then \<lfloor>r\<rfloor> else \<lceil>r\<rceil>)"

fun bin_digits :: "nat \<Rightarrow> string" where
  "bin_digits n =
     (if n < 2 then [if n = 0 then CHR ''0'' else CHR ''1'']
      else bin_digits (n div 2) @ [if even n then CHR ''0'' else CHR ''1''])"

declare bin_digits.simps [simp del]

definition zero_pad :: "nat \<Rightarrow> string \<Rightarrow> string" where
  "zero_pad w ds = replicate (w - length ds) CHR ''0'' @ ds"

definition format_08b :: "int \<Rightarrow> string" where
  "format_08b n =
     (if n < 0 then CHR ''-'' # zero_pad 7 (bin_digits (nat (- n)))
      else zero_pad 8 (bin_digits (nat n)))"

definition hash_of_remainders :: "real list \<Rightarrow> string list" where
  "hash_of_remainders ms = map (\<lambda>m. format_08b (py_int m)) ms"

section \<open>The controller\<close>

text \<open>
  What is on disk and in the local variables of
  \<^verbatim>\<open>video_retrieval_database_construction\<close> right after a hash unit has been completed: the
  state that an interruption at that point finds.
\<close>

record snapshot =
  snap_database :: table
  snap_progress_file :: "progress option"
  snap_files :: "string list"
  snap_locals :: progress

text \<open>
  The observable steps of a run, in order. \<open>Extract_frames i n\<close> is the call of
  \<^verbatim>\<open>extract_frames\<close> for the video at index \<open>i\<close>, made while the table held \<open>n\<close> distinct
  byte sequences. \<open>Save_unit\<close> is a \<^verbatim>\<open>save_progress\<close> call inside a stage loop,
  \<open>Save_transition\<close> one after a stage loop.
\<close>

datatype event =
    Coverage_check int bool
  | Extract_frames int nat
  | Extract_audio int
  | Update_call int string int string
  | Save_unit progress
  | Save_transition progress
  | Unit_done snapshot
  | Integrity_report bool

text \<open>
  The state threaded through the run: the table, the progress file, the transient
  artifacts on disk (\<open>files\<close>: frame directories and audio files, by path), the local
  variables of the function (\<open>None\<close> for a local that is not yet bound), and the trace.
\<close>

record state =
  database :: table
  progress_file :: "progress option"
  files :: "string list"
  l_video_index :: int
  l_frame_index :: int
  l_feature_stage :: string
  l_frame_dir :: "string option"
  l_audio_path :: "string option"
  carrier_videos :: "string list"
  trace :: "event list"

definition emit :: "event \<Rightarrow> state \<Rightarrow> state" where
  "emit e s = s\<lparr>trace := trace s @ [e]\<rparr>"

definition locals_of :: "state \<Rightarrow> progress" where
  "locals_of s =
     \<lparr>video_index = l_video_index s, frame_index = l_frame_index s,
      feature_stage = l_feature_stage s\<rparr>"

definition unit_done :: "state \<Rightarrow> state" where
  "unit_done s =
     emit (Unit_done \<lparr>snap_database = database s, snap_progress_file = progress_file s,
                      snap_files = files s, snap_locals = locals_of s\<rparr>) s"

definition update_step :: "int \<Rightarrow> string \<Rightarrow> int \<Rightarrow> string \<Rightarrow> state \<Rightarrow> state" where
  "update_step video_id feature_id j h s =
     emit (Update_call video_id feature_id j h)
       (s\<lparr>database := update_retrieval_database (database s) video_id feature_id j [h]\<rparr>)"

definition save_unit :: "progress \<Rightarrow> state \<Rightarrow> state" where
  "save_unit p s = emit (Save_unit p) (s\<lparr>progress_file := save_progress p (progress_file s)\<rparr>)"

definition save_transition :: "progress \<Rightarrow> state \<Rightarrow> state" where
  "save_transition p s =
     emit (Save_transition p) (s\<lparr>progress_file := save_progress p (progress_file s)\<rparr>)"

text \<open>
  The handler installed for \<^verbatim>\<open>SIGINT\<close>: it saves the three local variables as they are and
  exits with status 1.
\<close>

definition handle_interrupt :: "snapshot \<Rightarrow> progress option \<times> int" where
  "handle_interrupt c = (save_progress (snap_locals c) (snap_progress_file c), 1)"

text \<open>
  \<^verbatim>\<open>extract_frames\<close> creates the frame directory (\<^verbatim>\<open>exist_ok=True\<close>) and fills it;
  \<^verbatim>\<open>extract_audio\<close> writes the audio file unless it exists.
\<close>

definition extract_frames :: "int \<Rightarrow> video \<Rightarrow> state \<Rightarrow> state" where
  "extract_frames i v s =
     emit (Extract_frames i (unique_count (database s)))
       (s\<lparr>files := List.insert (frame_dir_of v) (files s),
          l_frame_dir := Some (frame_dir_of v)\<rparr>)"

definition extract_audio :: "string \<Rightarrow> int \<Rightarrow> video \<Rightarrow> state \<Rightarrow> state" where
  "extract_audio videos_dir i v s =
     emit (Extract_audio i)
       (s\<lparr>files := List.insert (audio_path_of videos_dir v) (files s),
          l_audio_path := Some (audio_path_of videos_dir v)\<rparr>)"

definition delete_directory :: "string \<Rightarrow> state \<Rightarrow> state" where
  "delete_directory directory_path s =
     (if directory_path \<in> set (files s) then s\<lparr>files := removeAll directory_path (files s)\<rparr>
      else s)"

fun delete_files :: "string list \<Rightarrow> state \<Rightarrow> state" where
  "delete_files [] s = s"
| "delete_files (file_path # file_paths) s =
     delete_files file_paths
       (if file_path \<in> set (files s) then s\<lparr>files := removeAll file_path (files s)\<rparr> else s)"

text \<open>
  The loop of each of the three stages. \<open>j\<close> is the counter of \<^verbatim>\<open>enumerate\<close>; only the SIFT loop assigns
  the local \<^verbatim>\<open>frame_index\<close>.
\<close>

fun sift_loop :: "int \<Rightarrow> int \<Rightarrow> int \<Rightarrow> string list \<Rightarrow> state \<Rightarrow> state" where
  "sift_loop i video_id j [] s = s"
| "sift_loop i video_id j (hash_sift # rest) s =
     sift_loop i video_id (j + 1) rest
       (unit_done
         ((save_unit \<lparr>video_index = i, frame_index = j + 1, feature_stage = ''SIFT''\<rparr>
            (update_step video_id ''SIFT'' j hash_sift s))
          \<lparr>l_frame_index := j + 1\<rparr>))"

fun ste_loop :: "int \<Rightarrow> int \<Rightarrow> int \<Rightarrow> string list \<Rightarrow> state \<Rightarrow> state" where
  "ste_loop i video_id j [] s = s"
| "ste_loop i video_id j (h # rest) s =
     ste_loop i video_id (j + 1) rest
       (unit_done
         (save_unit \<lparr>video_index = i, frame_index = j + 1, feature_stage = ''STE''\<rparr>
            (update_step video_id ''STE'' j h s)))"

fun dwt_loop :: "int \<Rightarrow> int \<Rightarrow> int \<Rightarrow> string list \<Rightarrow> state \<Rightarrow> state" where
  "dwt_loop i video_id j [] s = s"
| "dwt_loop i video_id j (h # rest) s =
     dwt_loop i video_id (j + 1) rest
       (unit_done
         (save_unit \<lparr>video_index = i, frame_index = j + 1, feature_stage = ''DWT''\<rparr>
            (update_step video_id ''DWT'' j h s)))"

text \<open>The three \<^verbatim>\<open>if feature_stage == ...\<close> blocks of the loop body.\<close>

definition sift_stage :: "int \<Rightarrow> int \<Rightarrow> string list \<Rightarrow> state \<Rightarrow> state" where
  "sift_stage i video_id frames s =
     (if l_feature_stage s = ''SIFT'' then
        (save_transition \<lparr>video_index = i, frame_index = 0, feature_stage = ''STE''\<rparr>
           (sift_loop i video_id (l_frame_index s) (slice_from (l_frame_index s) frames) s))
        \<lparr>l_feature_stage := ''STE''\<rparr>
      else s)"

definition ste_stage :: "int \<Rightarrow> int \<Rightarrow> string list \<Rightarrow> state \<Rightarrow> state" where
  "ste_stage i video_id hash_ste s =
     (if l_feature_stage s = ''STE'' then
        (save_transition \<lparr>video_index = i, frame_index = 0, feature_stage = ''DWT''\<rparr>
           (ste_loop i video_id 0 hash_ste s))
        \<lparr>l_feature_stage := ''DWT''\<rparr>
      else s)"

definition dwt_stage :: "int \<Rightarrow> int \<Rightarrow> string list \<Rightarrow> state \<Rightarrow> state" where
  "dwt_stage i video_id hash_dwt s =
     (if l_feature_stage s = ''DWT'' then
        (save_transition \<lparr>video_index = i + 1, frame_index = 0, feature_stage = ''SIFT''\<rparr>
           (dwt_loop i video_id 0 hash_dwt s))
        \<lparr>l_feature_stage := ''SIFT''\<rparr>
      else s)"

text \<open>The body of the video loop after the coverage check.\<close>

definition process_video :: "string \<Rightarrow> int \<Rightarrow> video \<Rightarrow> state \<Rightarrow> state" where
  "process_video videos_dir i v s =
     (let video_id = i + 1;
          s1 = extract_frames i v s;
          s2 = sift_stage i video_id (frames_sift v) s1;
          s3 = extract_audio videos_dir i v s2;
          s4 = ste_stage i video_id (audio_ste v) s3;
          s5 = dwt_stage i video_id (audio_dwt v) s4
      in s5\<lparr>carrier_videos := carrier_videos s5 @ [video_path_of videos_dir v]\<rparr>)"

text \<open>\<^verbatim>\<open>for i, video_path in enumerate(video_files)\<close>, with the \<^verbatim>\<open>break\<close> on full coverage.\<close>

fun video_loop :: "string \<Rightarrow> int \<Rightarrow> video list \<Rightarrow> state \<Rightarrow> state" where
  "video_loop videos_dir i [] s = s"
| "video_loop videos_dir i (v # vs) s =
     (if check_all_hash_sequences_generated (database s)
      then emit (Coverage_check i True) s
      else video_loop videos_dir (i + 1) vs
             (process_video videos_dir i v (emit (Coverage_check i False) s)))"

text \<open>
  The state in which the video loop starts: the table after \<^verbatim>\<open>create_database\<close>, the loaded
  checkpoint (or the default one) in the three locals, no other local bound.
\<close>

definition default_progress :: progress where
  "default_progress = \<lparr>video_index = 0, frame_index = 0, feature_stage = ''SIFT''\<rparr>"

definition initial_state :: "table option \<Rightarrow> progress option \<Rightarrow> string list \<Rightarrow> state" where
  "initial_state db_file f fs =
     (let progress = (case load_progress f of Some p \<Rightarrow> p | None \<Rightarrow> default_progress)
      in \<lparr>database = create_database db_file, progress_file = f, files = fs,
          l_video_index = video_index progress, l_frame_index = frame_index progress,
          l_feature_stage = feature_stage progress,
          l_frame_dir = None, l_audio_path = None, carrier_videos = [], trace = []\<rparr>)"

datatype error = UnboundLocalError

text \<open>
  The whole function. After the loop it reports the integrity check and deletes the
  directory and the audio file named by the locals \<^verbatim>\<open>frame_dir\<close> and \<^verbatim>\<open>audio_path\<close>, which are
  bound only if the loop body ran.
\<close>

definition video_retrieval_database_construction ::
  "string \<Rightarrow> video list \<Rightarrow> table option \<Rightarrow> progress option \<Rightarrow> string list \<Rightarrow> error + state" where
  "video_retrieval_database_construction videos_dir video_files db_file f fs =
     (let s1 = video_loop videos_dir 0 video_files (initial_state db_file f fs);
          s2 = emit (Integrity_report (check_database_integrity (database s1))) s1
      in case l_frame_dir s2 of
           None \<Rightarrow> Inl UnboundLocalError
         | Some frame_dir \<Rightarrow>
             (case l_audio_path s2 of
                None \<Rightarrow> Inl UnboundLocalError
              | Some audio_path \<Rightarrow> Inr (delete_files [audio_path] (delete_directory frame_dir s2))))"

text \<open>Projections of a trace.\<close>

fun saves_of :: "event list \<Rightarrow> progress list" where
  "saves_of [] = []"
| "saves_of (Save_unit p # es) = p # saves_of es"
| "saves_of (Save_transition p # es) = p # saves_of es"
| "saves_of (e # es) = saves_of es"

fun snapshots_of :: "event list \<Rightarrow> snapshot list" where
  "snapshots_of [] = []"
| "snapshots_of (Unit_done c # es) = c # snapshots_of es"
| "snapshots_of (e # es) = snapshots_of es"

fun updates_of :: "event list \<Rightarrow> (int \<times> string \<times> int \<times> string) list" where
  "updates_of [] = []"
| "updates_of (Update_call v f j h # es) = (v, f, j, h) # updates_of es"
| "updates_of (e # es) = updates_of es"

section \<open>Predicates on traces\<close>

text \<open>
  Two saves of the same video index and stage do not go backwards: the later one has a
  frame index at least as large.
\<close>

definition no_regress :: "progress \<Rightarrow> progress \<Rightarrow> bool" where
  "no_regress a b =
     (video_index a = video_index b \<and> feature_stage a = feature_stage b
        \<longrightarrow> frame_index a \<le> frame_index b)"

text \<open>
  What one stage block adds to the saves: nothing, or unit saves of its own stage with
  positive frame indices, in order, followed by its transition save \<open>t\<close>.
\<close>

definition stage_saves :: "int \<Rightarrow> string \<Rightarrow> progress \<Rightarrow> progress list \<Rightarrow> bool" where
  "stage_saves i st t ps =
     (ps = [] \<or>
      (\<exists>us. ps = us @ [t] \<and> sorted_wrt no_regress us \<and>
         (\<forall>q \<in> set us. video_index q = i \<and> feature_stage q = st \<and> 0 < frame_index q)))"

text \<open>
  The events of the stages: everything but a coverage check and a frame extraction, with
  every transition save carrying frame index 0.
\<close>

fun routine :: "event \<Rightarrow> bool" where
  "routine (Coverage_check i b) = False"
| "routine (Extract_frames i n) = False"
| "routine (Save_transition p) = (frame_index p = 0)"
| "routine e = True"

text \<open>
  A trace is \<open>gated\<close> when every frame extraction comes directly after a failed coverage
  check of the same video, is made while the table holds a number of distinct byte
  sequences other than 256, every failed check is directly followed by that video's frame
  extraction, and nothing at all follows a successful check.
\<close>

fun gated :: "event list \<Rightarrow> bool" where
  "gated [] = True"
| "gated (Coverage_check i True # es) = (es = [])"
| "gated (Coverage_check i False # Extract_frames i' n # es) = (i' = i \<and> n \<noteq> 256 \<and> gated es)"
| "gated (Coverage_check i False # es) = False"
| "gated (Extract_frames i n # es) = False"
| "gated (e # es) = gated es"

definition adds_routine :: "state \<Rightarrow> state \<Rightarrow> bool" where
  "adds_routine s s' = (\<exists>es. trace s' = trace s @ es \<and> list_all routine es)"

text \<open>Every transition save of a trace has frame index 0.\<close>

definition resets :: "event list \<Rightarrow> bool" where
  "resets es =
     list_all (\<lambda>e. case e of Save_transition p \<Rightarrow> frame_index p = 0 | _ \<Rightarrow> True) es"

text \<open>
  A byte sequence of the form that \<^verbatim>\<open>format(n, '08b')\<close> gives for \<open>0 \<le> n < 256\<close>: 8
  characters, each \<open>0\<close> or \<open>1\<close>. A table or a video is bytes-only when every hash value in
  it is of that form.
\<close>

definition is_byte :: "string \<Rightarrow> bool" where
  "is_byte b = (length b = 8 \<and> list_all (\<lambda>c. c = CHR ''0'' \<or> c = CHR ''1'') b)"






section \<open>Interruption and restart\<close>

text \<open>
  \<open>interrupted_after d vs k\<close> is what a first run over \<open>vs\<close> (no database file, no progress
  file) has on disk and in its locals right after its unit number \<open>k\<close>, counted from 0, if
  the run gets that far. \<open>resume\<close> restarts the program on the disk state that a process
  stopped at that point leaves behind (the table, the progress file as the last
  \<^verbatim>\<open>save_progress\<close> wrote it, the artifacts).
\<close>

definition interrupted_after :: "string \<Rightarrow> video list \<Rightarrow> nat \<Rightarrow> snapshot option" where
  "interrupted_after videos_dir vs k =
     (let cs = snapshots_of (trace (video_loop videos_dir 0 vs (initial_state None None [])))
      in if k < length cs then Some (cs ! k) else None)"

definition resume :: "string \<Rightarrow> video list \<Rightarrow> snapshot \<Rightarrow> error + state" where
  "resume videos_dir vs c =
     video_retrieval_database_construction videos_dir vs
       (Some (snap_database c)) (snap_progress_file c) (snap_files c)"

section \<open>Example inputs\<close>

text \<open>Two videos with two frames, two energy windows and one wavelet coefficient each; all
  ten hash values differ.\<close>

definition video_a :: video where
  "video_a =
     \<lparr>video_name = ''a'', frames_sift = [''00000001'', ''00000010''],
      audio_ste = [''00000011'', ''00000100''], audio_dwt = [''00000101'']\<rparr>"

definition video_b :: video where
  "video_b =
     \<lparr>video_name = ''b'', frames_sift = [''00000110'', ''00000111''],
      audio_ste = [''00001000'', ''00001001''], audio_dwt = [''00001010'']\<rparr>"

definition example_corpus :: "video list" where
  "example_corpus = [video_a, video_b]"

text \<open>The \<open>k\<close>-character binary numeral of \<open>n < 2 ^ k\<close>, and a table that holds all 256
  numerals of 8 characters.\<close>

fun byte_string :: "nat \<Rightarrow> nat \<Rightarrow> string" where
  "byte_string 0 n = []"
| "byte_string (Suc k) n = byte_string k (n div 2) @ [if even n then CHR ''0'' else CHR ''1'']"


text \<open>
  A table that lacks only the numeral of 255, a video whose single frame hashes to it, and
  the loop of a run over that video and \<open>video_b\<close> on that table.
\<close>

definition almost_full_table :: table where
  "almost_full_table =
     map (\<lambda>n. \<lparr>ByteSequence = Some (byte_string 8 n), VideoID = 1, FeatureID = ''DWT'',
                PositionID = int n\<rparr>) [0..<255]"

definition video_last_byte :: video where
  "video_last_byte =
     \<lparr>video_name = ''c'', frames_sift = [''11111111''], audio_ste = [], audio_dwt = []\<rparr>"


text \<open>
  A video whose frame hashes to the numeral of 255 and whose single wavelet coefficient
  has the remainder 256.0, hashed to 9 characters; the loop of a run over it and
  \<open>video_last_byte\<close> on the table that lacks the numeral of 255. And a video with one frame
  and three energy windows.
\<close>

definition video_overshoot :: video where
  "video_overshoot =
     \<lparr>video_name = ''d'', frames_sift = [''11111111''], audio_ste = [],
      audio_dwt = [''100000000'']\<rparr>"

definition overshoot_run :: state where
  "overshoot_run =
     video_loop ''Videos'' 0 [video_overshoot, video_last_byte]
       (initial_state (Some almost_full_table) None [])"

definition video_long_audio :: video where
  "video_long_audio =
     \<lparr>video_name = ''e'', frames_sift = [''00000001''],
      audio_ste = [''00000010'', ''00000011'', ''00000100''], audio_dwt = [''00000101'']\<rparr>"

section \<open>Properties of the store\<close>

lemma sql_eq_Some_True: "(sql_eq a (Some b) = Some True) = (a = Some b)"
  by (simp add: sql_eq_def split: option.splits)

lemma select_count_eq_zero:
  "(select_count_where (\<lambda>r. sql_eq (ByteSequence r) (Some b)) t = 0)
     = (Some b \<notin> ByteSequence ` set t)"
  by (auto simp: select_count_where_def filter_empty_conv sql_eq_Some_True image_iff)

lemma find_append_rows:
  "find P (xs @ ys) = (case find P xs of Some x \<Rightarrow> Some x | None \<Rightarrow> find P ys)"
  by (induction xs) simp_all

lemma insert_unique_present:
  "Some b \<in> ByteSequence ` set t \<Longrightarrow> insert_unique_into_database t b v f p = t"
  by (simp add: insert_unique_into_database_def select_count_eq_zero)

lemma insert_unique_absent:
  "Some b \<notin> ByteSequence ` set t \<Longrightarrow>
   insert_unique_into_database t b v f p =
     t @ [\<lparr>ByteSequence = Some b, VideoID = v, FeatureID = f, PositionID = p\<rparr>]"
  by (simp add: insert_unique_into_database_def select_count_eq_zero)

lemma insert_unique_distinct:
  "distinct (map ByteSequence t) \<Longrightarrow>
   distinct (map ByteSequence (insert_unique_into_database t b v f p))"
  by (cases "Some b \<in> ByteSequence ` set t")
     (simp_all add: insert_unique_present insert_unique_absent)

lemma insert_calls_distinct:
  "distinct (map ByteSequence t) \<Longrightarrow> distinct (map ByteSequence (insert_calls t cs))"
proof (induction cs arbitrary: t)
  case Nil
  then show ?case by simp
next
  case (Cons c cs)
  obtain b v f p where c: "c = (b, v, f, p)" by (cases c) auto
  from Cons.prems have "distinct (map ByteSequence (insert_unique_into_database t b v f p))"
    by (rule insert_unique_distinct)
  then show ?case unfolding c by (simp add: Cons.IH)
qed

lemma find_insert_unique:
  "find (\<lambda>r. ByteSequence r = Some b) (insert_unique_into_database t b' v f p) =
     (case find (\<lambda>r. ByteSequence r = Some b) t of
        Some r \<Rightarrow> Some r
      | None \<Rightarrow> if b' = b then Some (row_of_call (b', v, f, p)) else None)"
proof (cases "Some b' \<in> ByteSequence ` set t")
  case True
  then show ?thesis
    by (auto simp: insert_unique_present find_None_iff image_iff split: option.splits)
next
  case False
  then show ?thesis
    by (simp add: insert_unique_absent find_append_rows row_of_call_def split: option.splits)
qed

lemma find_insert_calls:
  "find (\<lambda>r. ByteSequence r = Some b) (insert_calls t cs) =
     (case find (\<lambda>r. ByteSequence r = Some b) t of
        Some r \<Rightarrow> Some r
      | None \<Rightarrow> map_option row_of_call (find (\<lambda>c. fst c = b) cs))"
proof (induction cs arbitrary: t)
  case Nil
  then show ?case by (simp split: option.splits)
next
  case (Cons c cs)
  obtain b' v f p where c: "c = (b', v, f, p)" by (cases c) auto
  show ?case unfolding c
    by (simp add: Cons.IH find_insert_unique split: option.splits)
qed

text \<open>
  C3. From the empty table that \<^verbatim>\<open>create_database\<close> makes, after any sequence of
  \<^verbatim>\<open>insert_unique_into_database\<close> calls no two rows have the same \<^verbatim>\<open>ByteSequence\<close>; the row
  that holds a value \<open>b\<close> is the one built from the first call that passed \<open>b\<close>; and on any
  table that already holds \<open>b\<close> a further insert of \<open>b\<close> returns the table as it was (no
  error), so the number of distinct values is unchanged.
\<close>

theorem insert_unique_dedup:
  "distinct (map ByteSequence (insert_calls (create_database None) cs)) \<and>
   find (\<lambda>r. ByteSequence r = Some b) (insert_calls (create_database None) cs) =
     map_option row_of_call (find (\<lambda>c. fst c = b) cs) \<and>
   (Some b \<in> ByteSequence ` set t \<longrightarrow>
      insert_unique_into_database t b v f p = t \<and>
      unique_count (insert_unique_into_database t b v f p) = unique_count t)"
  by (simp add: insert_calls_distinct find_insert_calls create_database_def insert_unique_present)

theorem insert_unique_dedup_witness:
  "Some ''00000000'' \<in> ByteSequence ` set (insert_calls [] [(''00000000'', 1, ''SIFT'', 0)]) \<and>
   insert_calls (create_database None)
     [(''00000000'', 1, ''SIFT'', 0), (''00000001'', 1, ''SIFT'', 1), (''00000000'', 2, ''SIFT'', 0)] =
     [\<lparr>ByteSequence = Some ''00000000'', VideoID = 1, FeatureID = ''SIFT'', PositionID = 0\<rparr>,
      \<lparr>ByteSequence = Some ''00000001'', VideoID = 1, FeatureID = ''SIFT'', PositionID = 1\<rparr>] \<and>
   insert_unique_into_database (insert_calls [] [(''00000000'', 1, ''SIFT'', 0)])
     ''00000000'' 2 ''STE'' 5 = insert_calls [] [(''00000000'', 1, ''SIFT'', 0)] \<and>
   find (\<lambda>r. ByteSequence r = Some ''00000000'')
     (insert_calls (create_database None)
        [(''00000000'', 1, ''SIFT'', 0), (''00000000'', 2, ''SIFT'', 0)]) =
     Some \<lparr>ByteSequence = Some ''00000000'', VideoID = 1, FeatureID = ''SIFT'', PositionID = 0\<rparr>"
  using insert_unique_dedup [of "[(''00000000'', 1, ''SIFT'', 0), (''00000000'', 2, ''SIFT'', 0)]"
      "''00000000''" "insert_calls [] [(''00000000'', 1, ''SIFT'', 0)]" 2 "''STE''" 5]
  by (simp add: insert_unique_into_database_def select_count_where_def sql_eq_def
      create_database_def row_of_call_def)

text \<open>
  C9. \<^verbatim>\<open>check_database_integrity\<close> returns false exactly when some row's \<^verbatim>\<open>ByteSequence\<close> is
  \<^verbatim>\<open>NULL\<close> or the empty string, and true on every table without such a row.
\<close>

theorem check_database_integrity_iff:
  "check_database_integrity t =
     (\<not> (\<exists>r \<in> set t. ByteSequence r = None \<or> ByteSequence r = Some ''''))"
proof -
  have w: "(sql_or (sql_is_null a) (sql_eq a (Some '''')) = Some True)
      = (a = None \<or> a = Some '''')" for a
    by (cases a) (simp_all add: sql_or_def sql_is_null_def sql_eq_def)
  show ?thesis
    by (simp add: check_database_integrity_def select_count_where_def filter_empty_conv w)
qed

theorem check_database_integrity_iff_witness:
  "\<not> check_database_integrity
      [\<lparr>ByteSequence = Some ''00000001'', VideoID = 1, FeatureID = ''SIFT'', PositionID = 0\<rparr>,
       \<lparr>ByteSequence = Some '''', VideoID = 1, FeatureID = ''STE'', PositionID = 0\<rparr>] \<and>
   \<not> check_database_integrity
      [\<lparr>ByteSequence = None, VideoID = 1, FeatureID = ''STE'', PositionID = 0\<rparr>] \<and>
   check_database_integrity
      [\<lparr>ByteSequence = Some ''00000001'', VideoID = 1, FeatureID = ''SIFT'', PositionID = 0\<rparr>]"
  using check_database_integrity_iff
      [of "[\<lparr>ByteSequence = Some ''00000001'', VideoID = 1, FeatureID = ''SIFT'', PositionID = 0\<rparr>,
            \<lparr>ByteSequence = Some '''', VideoID = 1, FeatureID = ''STE'', PositionID = 0\<rparr>]"]
    check_database_integrity_iff
      [of "[\<lparr>ByteSequence = None, VideoID = 1, FeatureID = ''STE'', PositionID = 0\<rparr>]"]
    check_database_integrity_iff
      [of "[\<lparr>ByteSequence = Some ''00000001'', VideoID = 1, FeatureID = ''SIFT'', PositionID = 0\<rparr>]"]
  by simp

section \<open>Properties of the controller\<close>

lemmas step_defs = emit_def unit_done_def update_step_def save_unit_def save_transition_def

lemma saves_of_append: "saves_of (xs @ ys) = saves_of xs @ saves_of ys"
  by (induction xs rule: saves_of.induct) simp_all

lemma sift_loop_locals:
  "l_feature_stage (sift_loop i vid j fs s) = l_feature_stage s"
  by (induction fs arbitrary: j s) (simp_all add: step_defs)

lemma sift_loop_frame_index:
  "0 \<le> l_frame_index s \<Longrightarrow> 0 \<le> j \<Longrightarrow> 0 \<le> l_frame_index (sift_loop i vid j fs s)"
  by (induction fs arbitrary: j s) (simp_all add: step_defs)

lemma ste_loop_locals:
  "l_feature_stage (ste_loop i vid j hs s) = l_feature_stage s"
  "l_frame_index (ste_loop i vid j hs s) = l_frame_index s"
  by (induction hs arbitrary: j s) (simp_all add: step_defs)

lemma dwt_loop_locals:
  "l_feature_stage (dwt_loop i vid j hs s) = l_feature_stage s"
  "l_frame_index (dwt_loop i vid j hs s) = l_frame_index s"
  by (induction hs arbitrary: j s) (simp_all add: step_defs)

lemma sift_loop_saves:
  "\<exists>ps. saves_of (trace (sift_loop i vid j fs s)) = saves_of (trace s) @ ps \<and>
        sorted_wrt no_regress ps \<and>
        (\<forall>q \<in> set ps. video_index q = i \<and> feature_stage q = ''SIFT'' \<and> j < frame_index q)"
proof (induction fs arbitrary: j s)
  case Nil
  then show ?case by simp
next
  case (Cons h fs)
  let ?p = "\<lparr>video_index = i, frame_index = j + 1, feature_stage = ''SIFT''\<rparr>"
  let ?s = "unit_done ((save_unit ?p (update_step vid ''SIFT'' j h s))\<lparr>l_frame_index := j + 1\<rparr>)"
  from Cons.IH [of "j + 1" ?s] obtain ps where
    ps: "saves_of (trace (sift_loop i vid (j + 1) fs ?s)) = saves_of (trace ?s) @ ps"
        "sorted_wrt no_regress ps"
        "\<forall>q \<in> set ps. video_index q = i \<and> feature_stage q = ''SIFT'' \<and> j + 1 < frame_index q"
    by blast
  have tr: "saves_of (trace ?s) = saves_of (trace s) @ [?p]"
    by (simp add: step_defs saves_of_append)
  have "saves_of (trace (sift_loop i vid j (h # fs) s)) = saves_of (trace s) @ (?p # ps)"
    using ps(1) tr by simp
  moreover have "sorted_wrt no_regress (?p # ps)"
    using ps(2,3) by (auto simp: no_regress_def)
  moreover have "\<forall>q \<in> set (?p # ps). video_index q = i \<and> feature_stage q = ''SIFT'' \<and> j < frame_index q"
    using ps(3) by auto
  ultimately show ?case by blast
qed


lemma ste_loop_saves:
  "\<exists>ps. saves_of (trace (ste_loop i vid j hs s)) = saves_of (trace s) @ ps \<and>
        sorted_wrt no_regress ps \<and>
        (\<forall>q \<in> set ps. video_index q = i \<and> feature_stage q = ''STE'' \<and> j < frame_index q)"
proof (induction hs arbitrary: j s)
  case Nil
  then show ?case by simp
next
  case (Cons h hs)
  let ?p = "\<lparr>video_index = i, frame_index = j + 1, feature_stage = ''STE''\<rparr>"
  let ?s = "unit_done (save_unit ?p (update_step vid ''STE'' j h s))"
  from Cons.IH [of "j + 1" ?s] obtain ps where
    ps: "saves_of (trace (ste_loop i vid (j + 1) hs ?s)) = saves_of (trace ?s) @ ps"
        "sorted_wrt no_regress ps"
        "\<forall>q \<in> set ps. video_index q = i \<and> feature_stage q = ''STE'' \<and> j + 1 < frame_index q"
    by blast
  have tr: "saves_of (trace ?s) = saves_of (trace s) @ [?p]"
    by (simp add: step_defs saves_of_append)
  have "saves_of (trace (ste_loop i vid j (h # hs) s)) = saves_of (trace s) @ (?p # ps)"
    using ps(1) tr by simp
  moreover have "sorted_wrt no_regress (?p # ps)"
    using ps(2,3) by (auto simp: no_regress_def)
  moreover have "\<forall>q \<in> set (?p # ps). video_index q = i \<and> feature_stage q = ''STE'' \<and> j < frame_index q"
    using ps(3) by auto
  ultimately show ?case by blast
qed

lemma dwt_loop_saves:
  "\<exists>ps. saves_of (trace (dwt_loop i vid j hs s)) = saves_of (trace s) @ ps \<and>
        sorted_wrt no_regress ps \<and>
        (\<forall>q \<in> set ps. video_index q = i \<and> feature_stage q = ''DWT'' \<and> j < frame_index q)"
proof (induction hs arbitrary: j s)
  case Nil
  then show ?case by simp
next
  case (Cons h hs)
  let ?p = "\<lparr>video_index = i, frame_index = j + 1, feature_stage = ''DWT''\<rparr>"
  let ?s = "unit_done (save_unit ?p (update_step vid ''DWT'' j h s))"
  from Cons.IH [of "j + 1" ?s] obtain ps where
    ps: "saves_of (trace (dwt_loop i vid (j + 1) hs ?s)) = saves_of (trace ?s) @ ps"
        "sorted_wrt no_regress ps"
        "\<forall>q \<in> set ps. video_index q = i \<and> feature_stage q = ''DWT'' \<and> j + 1 < frame_index q"
    by blast
  have tr: "saves_of (trace ?s) = saves_of (trace s) @ [?p]"
    by (simp add: step_defs saves_of_append)
  have "saves_of (trace (dwt_loop i vid j (h # hs) s)) = saves_of (trace s) @ (?p # ps)"
    using ps(1) tr by simp
  moreover have "sorted_wrt no_regress (?p # ps)"
    using ps(2,3) by (auto simp: no_regress_def)
  moreover have "\<forall>q \<in> set (?p # ps). video_index q = i \<and> feature_stage q = ''DWT'' \<and> j < frame_index q"
    using ps(3) by auto
  ultimately show ?case by blast
qed

lemma sift_stage_saves:
  assumes "0 \<le> l_frame_index s"
  shows "\<exists>ps. saves_of (trace (sift_stage i vid fs s)) = saves_of (trace s) @ ps \<and>
          stage_saves i ''SIFT'' \<lparr>video_index = i, frame_index = 0, feature_stage = ''STE''\<rparr> ps"
proof (cases "l_feature_stage s = ''SIFT''")
  case False
  then show ?thesis by (simp add: sift_stage_def stage_saves_def)
next
  case True
  obtain us where us:
    "saves_of (trace (sift_loop i vid (l_frame_index s) (slice_from (l_frame_index s) fs) s))
       = saves_of (trace s) @ us"
    "sorted_wrt no_regress us"
    "\<forall>q \<in> set us. video_index q = i \<and> feature_stage q = ''SIFT'' \<and> l_frame_index s < frame_index q"
    using sift_loop_saves by blast
  have "saves_of (trace (sift_stage i vid fs s)) =
          saves_of (trace s) @ (us @ [\<lparr>video_index = i, frame_index = 0, feature_stage = ''STE''\<rparr>])"
    using True us(1) by (simp add: sift_stage_def step_defs saves_of_append)
  moreover have "\<forall>q \<in> set us. video_index q = i \<and> feature_stage q = ''SIFT'' \<and> 0 < frame_index q"
    using us(3) assms by auto
  ultimately show ?thesis using us(2) unfolding stage_saves_def by blast
qed

lemma ste_stage_saves:
  "\<exists>ps. saves_of (trace (ste_stage i vid hs s)) = saves_of (trace s) @ ps \<and>
          stage_saves i ''STE'' \<lparr>video_index = i, frame_index = 0, feature_stage = ''DWT''\<rparr> ps"
proof (cases "l_feature_stage s = ''STE''")
  case False
  then show ?thesis by (simp add: ste_stage_def stage_saves_def)
next
  case True
  obtain us where us:
    "saves_of (trace (ste_loop i vid 0 hs s)) = saves_of (trace s) @ us"
    "sorted_wrt no_regress us"
    "\<forall>q \<in> set us. video_index q = i \<and> feature_stage q = ''STE'' \<and> 0 < frame_index q"
    using ste_loop_saves by blast
  have "saves_of (trace (ste_stage i vid hs s)) =
          saves_of (trace s) @ (us @ [\<lparr>video_index = i, frame_index = 0, feature_stage = ''DWT''\<rparr>])"
    using True us(1) by (simp add: ste_stage_def step_defs saves_of_append)
  then show ?thesis using us(2,3) unfolding stage_saves_def by blast
qed

lemma dwt_stage_saves:
  "\<exists>ps. saves_of (trace (dwt_stage i vid hs s)) = saves_of (trace s) @ ps \<and>
          stage_saves i ''DWT'' \<lparr>video_index = i + 1, frame_index = 0, feature_stage = ''SIFT''\<rparr> ps"
proof (cases "l_feature_stage s = ''DWT''")
  case False
  then show ?thesis by (simp add: dwt_stage_def stage_saves_def)
next
  case True
  obtain us where us:
    "saves_of (trace (dwt_loop i vid 0 hs s)) = saves_of (trace s) @ us"
    "sorted_wrt no_regress us"
    "\<forall>q \<in> set us. video_index q = i \<and> feature_stage q = ''DWT'' \<and> 0 < frame_index q"
    using dwt_loop_saves by blast
  have "saves_of (trace (dwt_stage i vid hs s)) =
          saves_of (trace s) @ (us @ [\<lparr>video_index = i + 1, frame_index = 0, feature_stage = ''SIFT''\<rparr>])"
    using True us(1) by (simp add: dwt_stage_def step_defs saves_of_append)
  then show ?thesis using us(2,3) unfolding stage_saves_def by blast
qed

lemma stage_saves_sorted: "stage_saves i st t ps \<Longrightarrow> feature_stage t \<noteq> st \<Longrightarrow> sorted_wrt no_regress ps"
  by (auto simp: stage_saves_def sorted_wrt_append no_regress_def)

lemma stage_saves_set:
  "stage_saves i st t ps \<Longrightarrow> q \<in> set ps \<Longrightarrow>
     q = t \<or> (video_index q = i \<and> feature_stage q = st \<and> 0 < frame_index q)"
  by (auto simp: stage_saves_def)

lemma sift_stage_frame_index:
  "0 \<le> l_frame_index s \<Longrightarrow> 0 \<le> l_frame_index (sift_stage i vid fs s)"
  by (simp add: sift_stage_def step_defs sift_loop_frame_index)

lemma ste_stage_frame_index: "l_frame_index (ste_stage i vid hs s) = l_frame_index s"
  by (simp add: ste_stage_def step_defs ste_loop_locals)

lemma dwt_stage_frame_index: "l_frame_index (dwt_stage i vid hs s) = l_frame_index s"
  by (simp add: dwt_stage_def step_defs dwt_loop_locals)

lemma process_video_frame_index:
  "0 \<le> l_frame_index s \<Longrightarrow> 0 \<le> l_frame_index (process_video d i v s)"
  by (simp add: process_video_def Let_def dwt_stage_frame_index ste_stage_frame_index
      extract_audio_def extract_frames_def emit_def sift_stage_frame_index)

lemma process_video_saves:
  assumes "0 \<le> l_frame_index s"
  shows "\<exists>ps. saves_of (trace (process_video d i v s)) = saves_of (trace s) @ ps \<and>
          sorted_wrt no_regress ps \<and>
          (\<forall>q \<in> set ps. 0 \<le> frame_index q \<and>
             (video_index q = i \<or> (video_index q = i + 1 \<and> frame_index q = 0)))"
proof -
  let ?s1 = "extract_frames i v s"
  let ?s2 = "sift_stage i (i + 1) (frames_sift v) ?s1"
  let ?s3 = "extract_audio d i v ?s2"
  let ?s4 = "ste_stage i (i + 1) (audio_ste v) ?s3"
  let ?s5 = "dwt_stage i (i + 1) (audio_dwt v) ?s4"
  let ?t1 = "\<lparr>video_index = i, frame_index = 0, feature_stage = ''STE''\<rparr>"
  let ?t2 = "\<lparr>video_index = i, frame_index = 0, feature_stage = ''DWT''\<rparr>"
  let ?t3 = "\<lparr>video_index = i + 1, frame_index = 0, feature_stage = ''SIFT''\<rparr>"
  have f1: "0 \<le> l_frame_index ?s1"
    using assms by (simp add: extract_frames_def emit_def)
  have t1: "saves_of (trace ?s1) = saves_of (trace s)"
    by (simp add: extract_frames_def emit_def saves_of_append)
  obtain ps1 where ps1: "saves_of (trace ?s2) = saves_of (trace ?s1) @ ps1"
      "stage_saves i ''SIFT'' ?t1 ps1"
    using sift_stage_saves [OF f1] by blast
  have t3: "saves_of (trace ?s3) = saves_of (trace ?s2)"
    by (simp add: extract_audio_def emit_def saves_of_append)
  obtain ps2 where ps2: "saves_of (trace ?s4) = saves_of (trace ?s3) @ ps2"
      "stage_saves i ''STE'' ?t2 ps2"
    using ste_stage_saves by blast
  obtain ps3 where ps3: "saves_of (trace ?s5) = saves_of (trace ?s4) @ ps3"
      "stage_saves i ''DWT'' ?t3 ps3"
    using dwt_stage_saves by blast
  have all: "saves_of (trace (process_video d i v s)) = saves_of (trace s) @ (ps1 @ ps2 @ ps3)"
    using t1 ps1(1) t3 ps2(1) ps3(1) by (simp add: process_video_def Let_def)
  have m1: "q = ?t1 \<or> (video_index q = i \<and> feature_stage q = ''SIFT'' \<and> 0 < frame_index q)"
    if "q \<in> set ps1" for q using stage_saves_set [OF ps1(2) that] .
  have m2: "q = ?t2 \<or> (video_index q = i \<and> feature_stage q = ''STE'' \<and> 0 < frame_index q)"
    if "q \<in> set ps2" for q using stage_saves_set [OF ps2(2) that] .
  have m3: "q = ?t3 \<or> (video_index q = i \<and> feature_stage q = ''DWT'' \<and> 0 < frame_index q)"
    if "q \<in> set ps3" for q using stage_saves_set [OF ps3(2) that] .
  have s1: "sorted_wrt no_regress ps1" using stage_saves_sorted [OF ps1(2)] by simp
  have s2: "sorted_wrt no_regress ps2" using stage_saves_sorted [OF ps2(2)] by simp
  have s3: "sorted_wrt no_regress ps3" using stage_saves_sorted [OF ps3(2)] by simp
  have c12: "no_regress a b" if "a \<in> set ps1" "b \<in> set ps2" for a b
    using m1 [OF that(1)] m2 [OF that(2)] by (auto simp: no_regress_def)
  have c13: "no_regress a b" if "a \<in> set ps1" "b \<in> set ps3" for a b
    using m1 [OF that(1)] m3 [OF that(2)] by (auto simp: no_regress_def)
  have c23: "no_regress a b" if "a \<in> set ps2" "b \<in> set ps3" for a b
    using m2 [OF that(1)] m3 [OF that(2)] by (auto simp: no_regress_def)
  have sorted: "sorted_wrt no_regress (ps1 @ ps2 @ ps3)"
    using s1 s2 s3 c12 c13 c23 by (auto simp: sorted_wrt_append)
  have mem: "\<forall>q \<in> set (ps1 @ ps2 @ ps3). 0 \<le> frame_index q \<and>
             (video_index q = i \<or> (video_index q = i + 1 \<and> frame_index q = 0))"
    using m1 m2 m3 by fastforce
  show ?thesis using all sorted mem by blast
qed

lemma video_loop_saves:
  assumes "0 \<le> l_frame_index s"
  shows "\<exists>ps. saves_of (trace (video_loop d i vs s)) = saves_of (trace s) @ ps \<and>
          sorted_wrt no_regress ps \<and>
          (\<forall>q \<in> set ps. 0 \<le> frame_index q \<and> i \<le> video_index q)"
  using assms
proof (induction vs arbitrary: i s)
  case Nil
  then show ?case by simp
next
  case (Cons v vs)
  show ?case
  proof (cases "check_all_hash_sequences_generated (database s)")
    case True
    then show ?thesis by (simp add: emit_def saves_of_append)
  next
    case False
    let ?s0 = "emit (Coverage_check i False) s"
    let ?s1 = "process_video d i v ?s0"
    have f0: "0 \<le> l_frame_index ?s0" using Cons.prems by (simp add: emit_def)
    have t0: "saves_of (trace ?s0) = saves_of (trace s)"
      by (simp add: emit_def saves_of_append)
    obtain ps where ps: "saves_of (trace ?s1) = saves_of (trace ?s0) @ ps"
        "sorted_wrt no_regress ps"
        "\<forall>q \<in> set ps. 0 \<le> frame_index q \<and>
             (video_index q = i \<or> (video_index q = i + 1 \<and> frame_index q = 0))"
      using process_video_saves [OF f0] by blast
    have f1: "0 \<le> l_frame_index ?s1" using f0 by (rule process_video_frame_index)
    obtain ps' where ps': "saves_of (trace (video_loop d (i + 1) vs ?s1)) = saves_of (trace ?s1) @ ps'"
        "sorted_wrt no_regress ps'"
        "\<forall>q \<in> set ps'. 0 \<le> frame_index q \<and> i + 1 \<le> video_index q"
      using Cons.IH [OF f1] by blast
    have all: "saves_of (trace (video_loop d i (v # vs) s)) = saves_of (trace s) @ (ps @ ps')"
      using False t0 ps(1) ps'(1) by simp
    have cross: "no_regress a b" if "a \<in> set ps" "b \<in> set ps'" for a b
      using ps(3) ps'(3) that by (fastforce simp: no_regress_def)
    have sorted: "sorted_wrt no_regress (ps @ ps')"
      using ps(2) ps'(2) cross by (auto simp: sorted_wrt_append)
    have mem: "\<forall>q \<in> set (ps @ ps'). 0 \<le> frame_index q \<and> i \<le> video_index q"
      using ps(3) ps'(3) by fastforce
    show ?thesis using all sorted mem by blast
  qed
qed



lemma gated_routine_append: "list_all routine xs \<Longrightarrow> gated (xs @ ys) = gated ys"
proof (induction xs)
  case Nil
  then show ?case by simp
next
  case (Cons e xs)
  then show ?case by (cases e) simp_all
qed

lemma adds_routine_refl: "adds_routine s s"
  by (simp add: adds_routine_def)

lemma adds_routine_trans: "adds_routine s s' \<Longrightarrow> adds_routine s' s'' \<Longrightarrow> adds_routine s s''"
  by (auto simp: adds_routine_def)

lemma adds_routine_sift_loop: "adds_routine s (sift_loop i vid j fs s)"
proof (induction fs arbitrary: j s)
  case Nil
  then show ?case by (simp add: adds_routine_refl)
next
  case (Cons h fs)
  let ?s = "unit_done ((save_unit \<lparr>video_index = i, frame_index = j + 1, feature_stage = ''SIFT''\<rparr>
                (update_step vid ''SIFT'' j h s))\<lparr>l_frame_index := j + 1\<rparr>)"
  have "adds_routine s ?s" by (simp add: adds_routine_def step_defs)
  then show ?case using Cons.IH [of ?s "j + 1"] by (auto intro: adds_routine_trans)
qed

lemma adds_routine_ste_loop: "adds_routine s (ste_loop i vid j hs s)"
proof (induction hs arbitrary: j s)
  case Nil
  then show ?case by (simp add: adds_routine_refl)
next
  case (Cons h hs)
  let ?s = "unit_done (save_unit \<lparr>video_index = i, frame_index = j + 1, feature_stage = ''STE''\<rparr>
                (update_step vid ''STE'' j h s))"
  have "adds_routine s ?s" by (simp add: adds_routine_def step_defs)
  then show ?case using Cons.IH [of ?s "j + 1"] by (auto intro: adds_routine_trans)
qed

lemma adds_routine_dwt_loop: "adds_routine s (dwt_loop i vid j hs s)"
proof (induction hs arbitrary: j s)
  case Nil
  then show ?case by (simp add: adds_routine_refl)
next
  case (Cons h hs)
  let ?s = "unit_done (save_unit \<lparr>video_index = i, frame_index = j + 1, feature_stage = ''DWT''\<rparr>
                (update_step vid ''DWT'' j h s))"
  have "adds_routine s ?s" by (simp add: adds_routine_def step_defs)
  then show ?case using Cons.IH [of ?s "j + 1"] by (auto intro: adds_routine_trans)
qed

lemma adds_routine_transition:
  "adds_routine s s' \<Longrightarrow> frame_index p = 0 \<Longrightarrow>
   adds_routine s ((save_transition p s')\<lparr>l_feature_stage := st\<rparr>)"
  by (auto simp: adds_routine_def step_defs)

lemma adds_routine_sift_stage: "adds_routine s (sift_stage i vid fs s)"
  by (simp add: sift_stage_def adds_routine_refl adds_routine_transition adds_routine_sift_loop)

lemma adds_routine_ste_stage: "adds_routine s (ste_stage i vid hs s)"
  by (simp add: ste_stage_def adds_routine_refl adds_routine_transition adds_routine_ste_loop)

lemma adds_routine_dwt_stage: "adds_routine s (dwt_stage i vid hs s)"
  by (simp add: dwt_stage_def adds_routine_refl adds_routine_transition adds_routine_dwt_loop)

lemma process_video_trace:
  "\<exists>es. trace (process_video d i v s) =
          trace s @ Extract_frames i (unique_count (database s)) # es \<and> list_all routine es"
proof -
  let ?s1 = "extract_frames i v s"
  let ?s2 = "sift_stage i (i + 1) (frames_sift v) ?s1"
  let ?s3 = "extract_audio d i v ?s2"
  let ?s4 = "ste_stage i (i + 1) (audio_ste v) ?s3"
  let ?s5 = "dwt_stage i (i + 1) (audio_dwt v) ?s4"
  have "adds_routine ?s2 ?s3" by (simp add: adds_routine_def extract_audio_def emit_def)
  with adds_routine_sift_stage have "adds_routine ?s1 ?s3" by (rule adds_routine_trans)
  then have "adds_routine ?s1 ?s4" using adds_routine_ste_stage by (rule adds_routine_trans)
  then have "adds_routine ?s1 ?s5" using adds_routine_dwt_stage by (rule adds_routine_trans)
  then obtain es where "trace ?s5 = trace ?s1 @ es" "list_all routine es"
    unfolding adds_routine_def by blast
  moreover have "trace ?s1 = trace s @ [Extract_frames i (unique_count (database s))]"
    by (simp add: extract_frames_def emit_def)
  ultimately have "trace (process_video d i v s) =
      trace s @ Extract_frames i (unique_count (database s)) # es \<and> list_all routine es"
    by (simp add: process_video_def Let_def)
  then show ?thesis by blast
qed

lemma routine_resets: "list_all routine es \<Longrightarrow> resets es"
  unfolding resets_def
proof (induction es)
  case Nil
  then show ?case by simp
next
  case (Cons e es)
  then show ?case by (cases e) simp_all
qed

lemma video_loop_trace:
  "\<exists>es. trace (video_loop d i vs s) = trace s @ es \<and> gated es \<and> resets es"
proof (induction vs arbitrary: i s)
  case Nil
  then show ?case by (simp add: resets_def)
next
  case (Cons v vs)
  show ?case
  proof (cases "check_all_hash_sequences_generated (database s)")
    case True
    then show ?thesis by (simp add: emit_def resets_def)
  next
    case False
    let ?s0 = "emit (Coverage_check i False) s"
    let ?s1 = "process_video d i v ?s0"
    have n: "unique_count (database ?s0) \<noteq> 256"
      using False by (simp add: emit_def check_all_hash_sequences_generated_def)
    obtain es where es: "trace ?s1 = trace ?s0 @ Extract_frames i (unique_count (database ?s0)) # es"
        "list_all routine es"
      using process_video_trace by blast
    obtain es' where es': "trace (video_loop d (i + 1) vs ?s1) = trace ?s1 @ es'"
        "gated es'" "resets es'"
      using Cons.IH by blast
    let ?all = "Coverage_check i False # Extract_frames i (unique_count (database ?s0)) # es @ es'"
    have "trace (video_loop d i (v # vs) s) = trace s @ ?all"
      using False es(1) es'(1) by (simp add: emit_def)
    moreover have "gated ?all"
      using n es(2) es'(2) by (simp add: gated_routine_append)
    moreover have "resets ?all"
      using routine_resets [OF es(2)] es'(3) by (simp add: resets_def)
    ultimately show ?thesis by blast
  qed
qed

lemma byte_string_inj:
  "n < 2 ^ k \<Longrightarrow> m < 2 ^ k \<Longrightarrow> byte_string k n = byte_string k m \<Longrightarrow> n = m"
proof (induction k arbitrary: n m)
  case 0
  then show ?case by simp
next
  case (Suc k)
  from Suc.prems(3) have eq: "byte_string k (n div 2) = byte_string k (m div 2)"
    and par: "even n = even m"
    by (auto split: if_splits)
  have "n div 2 < 2 ^ k" "m div 2 < 2 ^ k" using Suc.prems(1,2) by auto
  then have "n div 2 = m div 2" using eq by (rule Suc.IH)
  with par show ?case by presburger
qed



lemma unique_count_card: "unique_count t = card (set (List.map_filter ByteSequence t))"
  by (simp add: unique_count_def length_remdups_card_conv)


lemma map_filter_append: "List.map_filter f (xs @ ys) = List.map_filter f xs @ List.map_filter f ys"
  by (simp add: map_filter_def)


































lemma byte_string_shape:
  "length (byte_string k n) = k \<and> list_all (\<lambda>c. c = CHR ''0'' \<or> c = CHR ''1'') (byte_string k n)"
  by (induction k arbitrary: n) simp_all


lemma almost_full_values:
  "List.map_filter ByteSequence almost_full_table = map (byte_string 8) [0..<255]"
  by (simp add: almost_full_table_def map_filter_def comp_def)


lemma almost_full_count: "unique_count almost_full_table = 255"
proof -
  have "inj_on (byte_string 8) {0..<255}"
    by (rule inj_onI) (auto intro: byte_string_inj [of _ 8])
  then have "distinct (map (byte_string 8) [0..<255])"
    by (simp add: distinct_map)
  then show ?thesis
    by (simp add: unique_count_def almost_full_values distinct_remdups_id del: upt.simps)
qed

lemma last_byte: "byte_string 8 255 = ''11111111''"
  by code_simp

lemma last_absent: "''11111111'' \<notin> set (List.map_filter ByteSequence almost_full_table)"
proof
  assume "''11111111'' \<in> set (List.map_filter ByteSequence almost_full_table)"
  then obtain n where n: "n < 255" "byte_string 8 n = byte_string 8 255"
    by (auto simp: almost_full_values last_byte simp del: upt.simps)
  then have "n = 255" by (intro byte_string_inj [of n 8 255]) simp_all
  with n(1) show False by simp
qed

lemma values_image: "Some b \<in> ByteSequence ` set t \<longleftrightarrow> b \<in> set (List.map_filter ByteSequence t)"
  by (induction t) (auto simp: map_filter_simps image_iff split: option.splits)

lemma insert_last:
  "update_retrieval_database almost_full_table 1 ''SIFT'' 0 [''11111111''] =
     almost_full_table @
       [\<lparr>ByteSequence = Some ''11111111'', VideoID = 1, FeatureID = ''SIFT'', PositionID = 0\<rparr>]"
  by (simp add: update_retrieval_database_def insert_unique_absent values_image last_absent)

lemma count_after_last:
  "unique_count (almost_full_table @
       [\<lparr>ByteSequence = Some ''11111111'', VideoID = 1, FeatureID = ''SIFT'', PositionID = 0\<rparr>]) = 256"
  using last_absent almost_full_count
  by (simp add: unique_count_card map_filter_append map_filter_simps)



lemma bin_digits_bits: "list_all (\<lambda>c. c = CHR ''0'' \<or> c = CHR ''1'') (bin_digits n)"
  by (induction n rule: bin_digits.induct) (subst bin_digits.simps, simp)

lemma bin_digits_length: "0 < k \<Longrightarrow> n < 2 ^ k \<Longrightarrow> length (bin_digits n) \<le> k"
proof (induction n arbitrary: k rule: bin_digits.induct)
  case (1 n)
  show ?case
  proof (cases "n < 2")
    case True
    then show ?thesis using "1.prems"(1) by (subst bin_digits.simps) simp
  next
    case False
    then obtain k' where k: "k = Suc k'" "0 < k'"
      using "1.prems" by (cases k; cases "k - 1") auto
    have "n div 2 < 2 ^ k'" using "1.prems"(2) k(1) by auto
    then have "length (bin_digits (n div 2)) \<le> k'" using "1.IH" [OF False k(2)] by simp
    then show ?thesis using False k(1) by (subst bin_digits.simps) simp
  qed
qed

lemma replicate_all: "P x \<Longrightarrow> list_all P (replicate k x)"
  by (induction k) simp_all

lemma zero_pad_byte:
  assumes "length ds \<le> 8" and "list_all (\<lambda>c. c = CHR ''0'' \<or> c = CHR ''1'') ds"
  shows "is_byte (zero_pad 8 ds)"
proof -
  have "length (zero_pad 8 ds) = 8" using assms(1) by (simp add: zero_pad_def)
  moreover have "list_all (\<lambda>c. c = CHR ''0'' \<or> c = CHR ''1'') (replicate (8 - length ds) CHR ''0'')"
    by (rule replicate_all) simp
  then have "list_all (\<lambda>c. c = CHR ''0'' \<or> c = CHR ''1'') (zero_pad 8 ds)"
    using assms(2) by (simp add: zero_pad_def)
  ultimately show ?thesis by (simp add: is_byte_def)
qed

lemma format_08b_byte: "0 \<le> n \<Longrightarrow> n < 256 \<Longrightarrow> is_byte (format_08b n)"
proof -
  assume n: "0 \<le> n" "n < 256"
  then have "nat n < 2 ^ 8" by simp
  then have "length (bin_digits (nat n)) \<le> 8" by (intro bin_digits_length) simp_all
  then have "is_byte (zero_pad 8 (bin_digits (nat n)))"
    using bin_digits_bits by (rule zero_pad_byte)
  then show ?thesis using n by (simp add: format_08b_def)
qed

lemma hash_byte: "0 \<le> m \<Longrightarrow> m < 256 \<Longrightarrow> is_byte (format_08b (py_int m))"
proof -
  assume m: "0 \<le> m" "m < 256"
  then have "0 \<le> \<lfloor>m\<rfloor>" "\<lfloor>m\<rfloor> < 256" by (simp_all add: floor_less_iff)
  then show ?thesis using m by (simp add: py_int_def format_08b_byte)
qed


lemma nine_absent: "''100000000'' \<notin> set (List.map_filter ByteSequence almost_full_table)"
proof
  assume "''100000000'' \<in> set (List.map_filter ByteSequence almost_full_table)"
  then obtain n where "byte_string 8 n = ''100000000''"
    by (auto simp: almost_full_values simp del: upt.simps)
  then have "length (byte_string 8 n) = 9" by simp
  then show False by (simp add: byte_string_shape)
qed

lemma insert_nine:
  "update_retrieval_database
     (almost_full_table @
        [\<lparr>ByteSequence = Some ''11111111'', VideoID = 1, FeatureID = ''SIFT'', PositionID = 0\<rparr>])
     1 ''DWT'' 0 [''100000000''] =
   almost_full_table @
     [\<lparr>ByteSequence = Some ''11111111'', VideoID = 1, FeatureID = ''SIFT'', PositionID = 0\<rparr>,
      \<lparr>ByteSequence = Some ''100000000'', VideoID = 1, FeatureID = ''DWT'', PositionID = 0\<rparr>]"
  using nine_absent
  by (simp add: update_retrieval_database_def insert_unique_absent values_image
      map_filter_append map_filter_simps)

lemma count_after_nine:
  "unique_count (almost_full_table @
     [\<lparr>ByteSequence = Some ''11111111'', VideoID = 1, FeatureID = ''SIFT'', PositionID = 0\<rparr>,
      \<lparr>ByteSequence = Some ''100000000'', VideoID = 1, FeatureID = ''DWT'', PositionID = 0\<rparr>]) = 257"
  using last_absent nine_absent almost_full_count
  by (simp add: unique_count_card map_filter_append map_filter_simps)


lemma overshoot_run_database:
  "database overshoot_run =
     almost_full_table @
       [\<lparr>ByteSequence = Some ''11111111'', VideoID = 1, FeatureID = ''SIFT'', PositionID = 0\<rparr>,
        \<lparr>ByteSequence = Some ''100000000'', VideoID = 1, FeatureID = ''DWT'', PositionID = 0\<rparr>]"
  by (simp add: overshoot_run_def video_overshoot_def video_last_byte_def initial_state_def
      Let_def create_database_def load_progress_def default_progress_def process_video_def
      sift_stage_def ste_stage_def dwt_stage_def extract_frames_def extract_audio_def
      step_defs locals_of_def save_progress_def slice_from_def frame_dir_of_def
      audio_path_of_def check_all_hash_sequences_generated_def almost_full_count insert_last
      count_after_last insert_nine count_after_nine)




text \<open>
  Within one run that is not interrupted, and that starts from no checkpoint or from one
  whose frame index is not negative: among the checkpoints saved inside a stage loop or at
  a transition, in the order they are saved, two with the same video index and stage never
  go backwards in frame index; every save made at a stage or video transition has frame
  index 0; and no saved frame index is negative.
\<close>

theorem checkpoint_monotone:
  assumes "\<forall>p. f = Some p \<longrightarrow> 0 \<le> frame_index p"
  shows "sorted_wrt no_regress (saves_of (trace (video_loop d 0 vs (initial_state db f fs)))) \<and>
         resets (trace (video_loop d 0 vs (initial_state db f fs))) \<and>
         list_all (\<lambda>p. 0 \<le> frame_index p)
           (saves_of (trace (video_loop d 0 vs (initial_state db f fs))))"
proof -
  let ?s = "initial_state db f fs"
  have f0: "0 \<le> l_frame_index ?s"
    using assms by (cases f) (simp_all add: initial_state_def load_progress_def default_progress_def)
  have t0: "trace ?s = []" by (simp add: initial_state_def Let_def)
  obtain ps where ps: "saves_of (trace (video_loop d 0 vs ?s)) = saves_of (trace ?s) @ ps"
      "sorted_wrt no_regress ps" "\<forall>q \<in> set ps. 0 \<le> frame_index q \<and> 0 \<le> video_index q"
    using video_loop_saves [OF f0] by blast
  obtain es where es: "trace (video_loop d 0 vs ?s) = trace ?s @ es" "resets es"
    using video_loop_trace by blast
  show ?thesis using ps es t0 by (simp add: list_all_iff)
qed

theorem checkpoint_monotone_witness:
  "0 \<le> frame_index \<lparr>video_index = 0, frame_index = 1, feature_stage = ''SIFT''\<rparr> \<and>
   saves_of (trace (video_loop ''Videos'' 0 example_corpus
     (initial_state None
        (Some \<lparr>video_index = 0, frame_index = 1, feature_stage = ''SIFT''\<rparr>) []))) =
     [\<lparr>video_index = 0, frame_index = 2, feature_stage = ''SIFT''\<rparr>,
      \<lparr>video_index = 0, frame_index = 0, feature_stage = ''STE''\<rparr>,
      \<lparr>video_index = 0, frame_index = 1, feature_stage = ''STE''\<rparr>,
      \<lparr>video_index = 0, frame_index = 2, feature_stage = ''STE''\<rparr>,
      \<lparr>video_index = 0, frame_index = 0, feature_stage = ''DWT''\<rparr>,
      \<lparr>video_index = 0, frame_index = 1, feature_stage = ''DWT''\<rparr>,
      \<lparr>video_index = 1, frame_index = 0, feature_stage = ''SIFT''\<rparr>,
      \<lparr>video_index = 1, frame_index = 0, feature_stage = ''STE''\<rparr>,
      \<lparr>video_index = 1, frame_index = 1, feature_stage = ''STE''\<rparr>,
      \<lparr>video_index = 1, frame_index = 2, feature_stage = ''STE''\<rparr>,
      \<lparr>video_index = 1, frame_index = 0, feature_stage = ''DWT''\<rparr>,
      \<lparr>video_index = 1, frame_index = 1, feature_stage = ''DWT''\<rparr>,
      \<lparr>video_index = 2, frame_index = 0, feature_stage = ''SIFT''\<rparr>] \<and>
   sorted_wrt no_regress
     (saves_of (trace (video_loop ''Videos'' 0 example_corpus
        (initial_state None
           (Some \<lparr>video_index = 0, frame_index = 1, feature_stage = ''SIFT''\<rparr>) [])))) \<and>
   resets (trace (video_loop ''Videos'' 0 example_corpus
     (initial_state None
        (Some \<lparr>video_index = 0, frame_index = 1, feature_stage = ''SIFT''\<rparr>) [])))"
proof -
  let ?p = "\<lparr>video_index = 0, frame_index = 1, feature_stage = ''SIFT''\<rparr>"
  let ?run = "video_loop ''Videos'' 0 example_corpus (initial_state None (Some ?p) [])"
  have hyp: "\<forall>p. Some ?p = Some p \<longrightarrow> 0 \<le> frame_index p" by simp
  have saves: "saves_of (trace ?run) =
     [\<lparr>video_index = 0, frame_index = 2, feature_stage = ''SIFT''\<rparr>,
      \<lparr>video_index = 0, frame_index = 0, feature_stage = ''STE''\<rparr>,
      \<lparr>video_index = 0, frame_index = 1, feature_stage = ''STE''\<rparr>,
      \<lparr>video_index = 0, frame_index = 2, feature_stage = ''STE''\<rparr>,
      \<lparr>video_index = 0, frame_index = 0, feature_stage = ''DWT''\<rparr>,
      \<lparr>video_index = 0, frame_index = 1, feature_stage = ''DWT''\<rparr>,
      \<lparr>video_index = 1, frame_index = 0, feature_stage = ''SIFT''\<rparr>,
      \<lparr>video_index = 1, frame_index = 0, feature_stage = ''STE''\<rparr>,
      \<lparr>video_index = 1, frame_index = 1, feature_stage = ''STE''\<rparr>,
      \<lparr>video_index = 1, frame_index = 2, feature_stage = ''STE''\<rparr>,
      \<lparr>video_index = 1, frame_index = 0, feature_stage = ''DWT''\<rparr>,
      \<lparr>video_index = 1, frame_index = 1, feature_stage = ''DWT''\<rparr>,
      \<lparr>video_index = 2, frame_index = 0, feature_stage = ''SIFT''\<rparr>]"
    by code_simp
  have mono: "sorted_wrt no_regress (saves_of (trace ?run)) \<and> resets (trace ?run)"
    using checkpoint_monotone [OF hyp, of "''Videos''" example_corpus None "[]"] by blast
  show ?thesis using saves mono by (intro conjI) simp_all
qed

text \<open>
  C7 (the code departs from the claim). In a first run over one video with one frame and
  three energy windows, an interrupt right after the third window finds the progress file
  at \<open>{video_index: 0, frame_index: 3, feature_stage: STE}\<close>, and the handler's save
  overwrites it with \<open>{video_index: 0, frame_index: 1, feature_stage: STE}\<close>. And a run over
  the two example videos that is stopped with the progress file at
  \<open>{video_index: 0, frame_index: 2, feature_stage: STE}\<close> and started again writes
  \<open>{video_index: 0, frame_index: 1, feature_stage: STE}\<close> with its first save. Both times the
  saved frame index of video 0's STE stage goes backwards.
\<close>

theorem checkpoint_regresses:
  "map_option (\<lambda>c. (snap_progress_file c, handle_interrupt c))
     (interrupted_after ''Videos'' [video_long_audio] 3) =
     Some (Some \<lparr>video_index = 0, frame_index = 3, feature_stage = ''STE''\<rparr>,
           Some \<lparr>video_index = 0, frame_index = 1, feature_stage = ''STE''\<rparr>, 1) \<and>
   map_option (\<lambda>c. (snap_progress_file c,
        map_sum id (\<lambda>s. map snap_progress_file (take 1 (snapshots_of (trace s))))
          (resume ''Videos'' example_corpus c)))
     (interrupted_after ''Videos'' example_corpus 3) =
     Some (Some \<lparr>video_index = 0, frame_index = 2, feature_stage = ''STE''\<rparr>,
           Inr [Some \<lparr>video_index = 0, frame_index = 1, feature_stage = ''STE''\<rparr>])"
  by code_simp

text \<open>
  C1 (the code departs from the claim). A first run over the two example videos is stopped
  right after the first energy window of video 0 is inserted and checkpointed, the progress
  file reading \<open>{video_index: 0, frame_index: 1, feature_stage: STE}\<close>, and the program is
  started again. The run in one pass ends with 8 rows and none from the frames of video 1;
  the stopped and restarted run ends with 9 rows, among them frame 1 of video 1.
\<close>

theorem resumption_changes_store:
  "map_option snap_progress_file (interrupted_after ''Videos'' example_corpus 2) =
     Some (Some \<lparr>video_index = 0, frame_index = 1, feature_stage = ''STE''\<rparr>) \<and>
   map_sum id database
     (video_retrieval_database_construction ''Videos'' example_corpus None None []) =
     Inr [\<lparr>ByteSequence = Some ''00000001'', VideoID = 1, FeatureID = ''SIFT'', PositionID = 0\<rparr>,
          \<lparr>ByteSequence = Some ''00000010'', VideoID = 1, FeatureID = ''SIFT'', PositionID = 1\<rparr>,
          \<lparr>ByteSequence = Some ''00000011'', VideoID = 1, FeatureID = ''STE'', PositionID = 0\<rparr>,
          \<lparr>ByteSequence = Some ''00000100'', VideoID = 1, FeatureID = ''STE'', PositionID = 1\<rparr>,
          \<lparr>ByteSequence = Some ''00000101'', VideoID = 1, FeatureID = ''DWT'', PositionID = 0\<rparr>,
          \<lparr>ByteSequence = Some ''00001000'', VideoID = 2, FeatureID = ''STE'', PositionID = 0\<rparr>,
          \<lparr>ByteSequence = Some ''00001001'', VideoID = 2, FeatureID = ''STE'', PositionID = 1\<rparr>,
          \<lparr>ByteSequence = Some ''00001010'', VideoID = 2, FeatureID = ''DWT'', PositionID = 0\<rparr>] \<and>
   map_option (\<lambda>c. map_sum id database (resume ''Videos'' example_corpus c))
     (interrupted_after ''Videos'' example_corpus 2) =
     Some (Inr
         [\<lparr>ByteSequence = Some ''00000001'', VideoID = 1, FeatureID = ''SIFT'', PositionID = 0\<rparr>,
          \<lparr>ByteSequence = Some ''00000010'', VideoID = 1, FeatureID = ''SIFT'', PositionID = 1\<rparr>,
          \<lparr>ByteSequence = Some ''00000011'', VideoID = 1, FeatureID = ''STE'', PositionID = 0\<rparr>,
          \<lparr>ByteSequence = Some ''00000100'', VideoID = 1, FeatureID = ''STE'', PositionID = 1\<rparr>,
          \<lparr>ByteSequence = Some ''00000101'', VideoID = 1, FeatureID = ''DWT'', PositionID = 0\<rparr>,
          \<lparr>ByteSequence = Some ''00000111'', VideoID = 2, FeatureID = ''SIFT'', PositionID = 1\<rparr>,
          \<lparr>ByteSequence = Some ''00001000'', VideoID = 2, FeatureID = ''STE'', PositionID = 0\<rparr>,
          \<lparr>ByteSequence = Some ''00001001'', VideoID = 2, FeatureID = ''STE'', PositionID = 1\<rparr>,
          \<lparr>ByteSequence = Some ''00001010'', VideoID = 2, FeatureID = ''DWT'', PositionID = 0\<rparr>])"
  by code_simp

text \<open>
  C2 (the code departs from the claim). Restarted on the checkpoint
  \<open>{video_index: 0, frame_index: 1, feature_stage: STE}\<close>, the program skips the SIFT stage
  of video 0 but hashes and inserts its energy window 0 again: the STE loop starts at
  unit 0, not at unit 1. Restarted on \<open>{video_index: 1, frame_index: 1, feature_stage: STE}\<close>,
  it processes video 0 again (its STE and DWT stages), and for video 1 it runs the SIFT
  stage from frame 1 and the STE stage from unit 0. Each list gives the
  \<^verbatim>\<open>update_retrieval_database\<close> calls of the restarted run as (video id, stage, position, hash).
\<close>

theorem resume_reprocesses_units:
  "map_option (\<lambda>c. (snap_progress_file c,
                     map_sum id (\<lambda>s. updates_of (trace s)) (resume ''Videos'' example_corpus c)))
     (interrupted_after ''Videos'' example_corpus 2) =
     Some (Some \<lparr>video_index = 0, frame_index = 1, feature_stage = ''STE''\<rparr>,
           Inr [(1, ''STE'', 0, ''00000011''), (1, ''STE'', 1, ''00000100''),
                (1, ''DWT'', 0, ''00000101''), (2, ''SIFT'', 1, ''00000111''),
                (2, ''STE'', 0, ''00001000''), (2, ''STE'', 1, ''00001001''),
                (2, ''DWT'', 0, ''00001010'')]) \<and>
   map_option (\<lambda>c. (snap_progress_file c,
                     map_sum id (\<lambda>s. updates_of (trace s)) (resume ''Videos'' example_corpus c)))
     (interrupted_after ''Videos'' example_corpus 5) =
     Some (Some \<lparr>video_index = 1, frame_index = 1, feature_stage = ''STE''\<rparr>,
           Inr [(1, ''STE'', 0, ''00000011''), (1, ''STE'', 1, ''00000100''),
                (1, ''DWT'', 0, ''00000101''), (2, ''SIFT'', 1, ''00000111''),
                (2, ''STE'', 0, ''00001000''), (2, ''STE'', 1, ''00001001''),
                (2, ''DWT'', 0, ''00001010'')])"
  by code_simp

text \<open>
  C5 (the code departs from the claim). In a first run over the two example videos, an
  interrupt right after the first energy window of video 0 finds the progress file at
  \<open>{video_index: 0, frame_index: 1, feature_stage: STE}\<close>, and the handler overwrites it with
  \<open>{video_index: 0, frame_index: 2, feature_stage: STE}\<close>; right after the first energy window
  of video 1 the file reads \<open>{video_index: 1, frame_index: 1, feature_stage: STE}\<close> and the
  handler again writes \<open>{video_index: 0, frame_index: 2, feature_stage: STE}\<close>. The exit
  status is 1 both times.
\<close>

theorem interrupt_saves_stale_locals:
  "map_option (\<lambda>c. (snap_progress_file c, handle_interrupt c))
     (interrupted_after ''Videos'' example_corpus 2) =
     Some (Some \<lparr>video_index = 0, frame_index = 1, feature_stage = ''STE''\<rparr>,
           Some \<lparr>video_index = 0, frame_index = 2, feature_stage = ''STE''\<rparr>, 1) \<and>
   map_option (\<lambda>c. (snap_progress_file c, handle_interrupt c))
     (interrupted_after ''Videos'' example_corpus 5) =
     Some (Some \<lparr>video_index = 1, frame_index = 1, feature_stage = ''STE''\<rparr>,
           Some \<lparr>video_index = 0, frame_index = 2, feature_stage = ''STE''\<rparr>, 1)"
  by code_simp

text \<open>
  C8 (the code departs from the claim). While the first energy window of video 1 is
  processed, the frame directory and the audio file of video 0 are still on disk, and they
  are still there when the run over the two example videos has returned: only the
  artifacts of the last video are deleted.
\<close>

theorem cleanup_only_last_video:
  "map_option snap_files (interrupted_after ''Videos'' example_corpus 5) =
     Some [''Videos/b.wav'', ''Processed/frames_b'', ''Videos/a.wav'', ''Processed/frames_a''] \<and>
   map_sum id files
     (video_retrieval_database_construction ''Videos'' example_corpus None None []) =
     Inr [''Videos/a.wav'', ''Processed/frames_a'']"
  by code_simp

text \<open>
  C10 (the code departs from the claim). A remainder of 256.0, which \<^verbatim>\<open>x % 256\<close> gives in
  float32 arithmetic for a small negative coefficient \<open>x\<close>, is written as the 9 characters
  \<open>100000000\<close>, which is not a byte sequence of 8 binary digits; a video with this wavelet
  hash leaves 257 distinct byte sequences in the table.
\<close>

theorem dwt_hash_nine_characters:
  "hash_of_remainders [256] = [''100000000''] \<and>
   \<not> is_byte ''100000000'' \<and>
   audio_dwt video_overshoot = hash_of_remainders [256] \<and>
   unique_count (database overshoot_run) = 257"
proof -
  have h: "hash_of_remainders [256] = [''100000000'']" by code_simp
  have "\<not> is_byte ''100000000''" by (simp add: is_byte_def)
  moreover have "audio_dwt video_overshoot = hash_of_remainders [256]"
    by (simp add: h video_overshoot_def)
  moreover have "unique_count (database overshoot_run) = 257"
    by (simp add: overshoot_run_database count_after_nine)
  ultimately show ?thesis using h by simp
qed

end
